theory Spec2Isabelle
  imports Main "HOL-Library.Word"
begin

section \<open>Errors\<close>

text \<open>
  The connector signals every failure by throwing. The model returns the thrown value as
  the left summand of a result. The four classes the connector can let escape:
  \<^item> \<open>GuardError source property\<close>, thrown by an argument guard for the named
    property (the library's message key for the violated rule is left out);
  \<^item> \<open>NotFoundError source message\<close>;
  \<^item> \<open>GeneralError source message inner\<close>, where \<open>inner\<close> is the wrapped cause
    (the fourth constructor argument in the source, \<open>None\<close> when it is omitted; the
    third argument, a bag of properties for the message, is left out);
  \<^item> \<open>ExternalError message\<close>, standing for whatever an external collaborator throws
    (the backing entity storage, the base64 decoder).
\<close>

datatype error =
    GuardError string string
  | NotFoundError string string
  | GeneralError string string "error option"
  | ExternalError string

type_synonym byte = "8 word"

section \<open>Library helpers used by the connector\<close>

subsection \<open>Guards\<close>

text \<open>Modelled from the spec: \<open>Guards.stringValue\<close> belongs to the core library, which is
  not among the sources. The spec's preconditions ask for a non-empty string and say that
  an empty string is rejected; the guard throws a \<open>GuardError\<close> naming the property.\<close>

definition Guards_stringValue :: "string \<Rightarrow> string \<Rightarrow> string \<Rightarrow> error option" where
  "Guards_stringValue source property v =
     (if v = [] then Some (GuardError source property) else None)"

text \<open>\<open>Guards.uint8Array\<close> is the library's plain type guard: unlike the value guard
  \<open>Guards.stringValue\<close> it looks at the type of its argument only and throws for a value
  that is not a byte array. Here the argument is a byte list by its type, so the guard
  passes every argument, the zero-length array included.\<close>

definition Guards_uint8Array :: "string \<Rightarrow> string \<Rightarrow> byte list \<Rightarrow> error option" where
  "Guards_uint8Array source property v = None"

subsection \<open>Structured identifiers\<close>

text \<open>\<open>split_on d s\<close> cuts \<open>s\<close> at every \<open>d\<close>, as \<open>String.prototype.split\<close> does: the
  empty string gives one empty segment, and a trailing delimiter gives a trailing empty
  segment.\<close>

fun split_on :: "char \<Rightarrow> string \<Rightarrow> string list" where
  "split_on d [] = [[]]"
| "split_on d (c # cs) =
     (if c = d then [] # split_on d cs
      else (case split_on d cs of [] \<Rightarrow> [[c]] | w # ws \<Rightarrow> (c # w) # ws))"

fun join_with :: "char \<Rightarrow> string list \<Rightarrow> string" where
  "join_with d [] = []"
| "join_with d [p] = p"
| "join_with d (p # q # ps) = p @ d # join_with d (q # ps)"

text \<open>A parsed identifier is the list of its colon-separated parts.\<close>

type_synonym urn = "string list"

text \<open>Modelled from the spec: the \<open>Urn\<close> constructor of the core library, which is not
  among the sources. It pairs a namespace identifier with the namespace-specific rest.\<close>

definition Urn_new :: "string \<Rightarrow> string \<Rightarrow> urn" where
  "Urn_new namespaceIdentifier namespaceSpecific_part =
     namespaceIdentifier # split_on CHR '':'' namespaceSpecific_part"

text \<open>Modelled from the spec: \<open>Urn.toString\<close>, the canonical colon-delimited form
  \<open>{namespace}:{method}:{specificId}\<close> of the parts.\<close>

definition Urn_toString :: "urn \<Rightarrow> string" where
  "Urn_toString parts = join_with CHR '':'' parts"

text \<open>Modelled from the spec: \<open>Urn.validate\<close>, the syntactic check behind \<open>Urn.guard\<close>.
  The spec's parse fails on a wrong delimiter count and on empty segments, so a valid
  identifier has exactly three non-empty colon-separated segments.\<close>

definition Urn_validate :: "string \<Rightarrow> bool" where
  "Urn_validate v =
     (case split_on CHR '':'' v of
        [ns, m, sp] \<Rightarrow> ns \<noteq> [] \<and> m \<noteq> [] \<and> sp \<noteq> []
      | _ \<Rightarrow> False)"

text \<open>Modelled from the spec: \<open>Urn.guard\<close> of the core library: the malformed-identifier
  failure, thrown as a \<open>GuardError\<close> naming the property.\<close>

definition Urn_guard :: "string \<Rightarrow> string \<Rightarrow> string \<Rightarrow> error option" where
  "Urn_guard source property v =
     (if Urn_validate v then None else Some (GuardError source property))"

text \<open>Modelled from the spec: \<open>Urn.fromValidString\<close>, the parse of an identifier that has
  passed the guard, into its parts.\<close>

definition Urn_fromValidString :: "string \<Rightarrow> urn" where
  "Urn_fromValidString v = split_on CHR '':'' v"

text \<open>Modelled from the spec: \<open>namespaceMethod\<close>, the method tag, which is the second
  part of the identifier.\<close>

definition namespaceMethod :: "urn \<Rightarrow> string" where
  "namespaceMethod parts = (if 1 < length parts then parts ! 1 else [])"

text \<open>Modelled from the spec: \<open>namespaceSpecific startIndex\<close>, the method-specific suffix
  addressed by positional index: the parts after the namespace identifier, from
  \<open>startIndex\<close> on, joined by colons again.\<close>

definition namespaceSpecific :: "nat \<Rightarrow> urn \<Rightarrow> string" where
  "namespaceSpecific startIndex parts = join_with CHR '':'' (drop (Suc startIndex) parts)"

subsection \<open>Random bytes and hexadecimal\<close>

text \<open>\<open>RandomHelper.generate\<close> is external and non-deterministic. Its entropy is a
  parameter of the model: \<open>rnd i\<close> is the \<open>i\<close>-th byte the generator yields in this call.\<close>

definition RandomHelper_generate :: "(nat \<Rightarrow> byte) \<Rightarrow> nat \<Rightarrow> byte list" where
  "RandomHelper_generate rnd n = map rnd [0..<n]"

definition hexChars :: string where
  "hexChars = ''0123456789abcdef''"

text \<open>Modelled from the spec: \<open>Converter.bytesToHex\<close> of the core library, which is not
  among the sources: two lower-case hexadecimal digits for every byte, high nibble first
  (32 bytes give 64 characters).\<close>

definition byteToHex :: "byte \<Rightarrow> string" where
  "byteToHex b = [hexChars ! (unat b div 16), hexChars ! (unat b mod 16)]"

definition bytesToHex :: "byte list \<Rightarrow> string" where
  "bytesToHex bs = concat (map byteToHex bs)"

subsection \<open>Base64\<close>

definition base64Chars :: string where
  "base64Chars =
     ''ABCDEFGHIJKLMNOPQRSTUVWXYZabcdefghijklmnopqrstuvwxyz0123456789+/''"

definition b64_char :: "nat \<Rightarrow> char" where
  "b64_char n = base64Chars ! n"

definition b64_value :: "char \<Rightarrow> nat option" where
  "b64_value c = map_of (zip base64Chars [0..<64]) c"

text \<open>Modelled from the spec: \<open>Converter.bytesToBase64\<close> of the core library, which is
  not among the sources: the standard base64 encoding with padding. Three bytes form a
  24-bit group that is cut into four 6-bit digits; a rest of one or two bytes is padded
  with zero bits and with \<open>=\<close>.\<close>

fun bytesToBase64 :: "byte list \<Rightarrow> string" where
  "bytesToBase64 [] = []"
| "bytesToBase64 [a] =
     (let n = unat a * 65536 in
      [b64_char (n div 262144), b64_char (n div 4096 mod 64), CHR ''='', CHR ''=''])"
| "bytesToBase64 [a, b] =
     (let n = unat a * 65536 + unat b * 256 in
      [b64_char (n div 262144), b64_char (n div 4096 mod 64),
       b64_char (n div 64 mod 64), CHR ''=''])"
| "bytesToBase64 (a # b # c # rest) =
     (let n = unat a * 65536 + unat b * 256 + unat c in
      [b64_char (n div 262144), b64_char (n div 4096 mod 64),
       b64_char (n div 64 mod 64), b64_char (n mod 64)] @ bytesToBase64 rest)"

text \<open>Modelled from the spec: \<open>Converter.base64ToBytes\<close> of the core library, which is
  not among the sources: the inverse of the encoding. \<open>None\<close> stands for the exception on
  text that is not base64 (a length that is no multiple of four, a character outside the
  alphabet, padding before the last group).\<close>

fun base64ToBytes :: "string \<Rightarrow> byte list option" where
  "base64ToBytes [] = Some []"
| "base64ToBytes (c0 # c1 # c2 # c3 # rest) =
     (if c2 = CHR ''='' \<and> c3 = CHR ''='' \<and> rest = [] then
        (case (b64_value c0, b64_value c1) of
           (Some v0, Some v1) \<Rightarrow>
             (let n = v0 * 262144 + v1 * 4096 in Some [of_nat (n div 65536)])
         | _ \<Rightarrow> None)
      else if c3 = CHR ''='' \<and> rest = [] then
        (case (b64_value c0, b64_value c1, b64_value c2) of
           (Some v0, Some v1, Some v2) \<Rightarrow>
             (let n = v0 * 262144 + v1 * 4096 + v2 * 64
              in Some [of_nat (n div 65536), of_nat (n div 256 mod 256)])
         | _ \<Rightarrow> None)
      else
        (case (b64_value c0, b64_value c1, b64_value c2, b64_value c3) of
           (Some v0, Some v1, Some v2, Some v3) \<Rightarrow>
             (let n = v0 * 262144 + v1 * 4096 + v2 * 64 + v3 in
              case base64ToBytes rest of
                None \<Rightarrow> None
              | Some bs \<Rightarrow>
                  Some (of_nat (n div 65536) # of_nat (n div 256 mod 256)
                        # of_nat (n mod 256) # bs))
         | _ \<Rightarrow> None))"
| "base64ToBytes _ = None"

section \<open>The backing entity storage\<close>

text \<open>The persisted entity, as the object literal in \<open>store\<close> builds it: the hex id, the
  controller and the base64 text of the payload. The fields \<open>id\<close>, \<open>controller\<close> and
  \<open>data\<close> carry the prefix \<open>item_\<close> here, since \<open>id\<close> is a constant of HOL and the
  other two are also the names of the operations' parameters.\<close>

record ImmutableItem =
  item_id :: string
  item_controller :: string
  item_data :: string

text \<open>Every call that reaches the backing store is recorded, so that "without touching
  the backing store" can be stated.\<close>

datatype es_call = EsSet ImmutableItem | EsGet string | EsRemove string

record entity_storage =
  entities :: "string \<rightharpoonup> ImmutableItem"
  fault :: "error option"
  calls :: "es_call list"

text \<open>Modelled from the spec: the entity storage connector is an external collaborator,
  a key-value store keyed by the primary key \<open>id\<close>, whose \<open>set\<close> is an upsert. While
  \<open>fault\<close> holds an error, every call throws it and changes no entity.\<close>

definition es_set :: "ImmutableItem \<Rightarrow> entity_storage \<Rightarrow> (error + unit) \<times> entity_storage" where
  "es_set entity s =
     (let s' = s\<lparr>calls := calls s @ [EsSet entity]\<rparr> in
      case fault s of
        Some e \<Rightarrow> (Inl e, s')
      | None \<Rightarrow> (Inr (), s'\<lparr>entities := (entities s)(item_id entity \<mapsto> entity)\<rparr>))"

text \<open>Modelled from the spec: the entity storage's \<open>get\<close>, a lookup by primary key that
  yields nothing (\<open>None\<close>, the source's \<open>undefined\<close>) for an absent key.\<close>

definition es_get ::
  "string \<Rightarrow> entity_storage \<Rightarrow> (error + ImmutableItem option) \<times> entity_storage" where
  "es_get k s =
     (let s' = s\<lparr>calls := calls s @ [EsGet k]\<rparr> in
      case fault s of
        Some e \<Rightarrow> (Inl e, s')
      | None \<Rightarrow> (Inr (entities s k), s'))"

text \<open>Modelled from the spec: the entity storage's \<open>remove\<close>, deleting the key.\<close>

definition es_remove :: "string \<Rightarrow> entity_storage \<Rightarrow> (error + unit) \<times> entity_storage" where
  "es_remove k s =
     (let s' = s\<lparr>calls := calls s @ [EsRemove k]\<rparr> in
      case fault s of
        Some e \<Rightarrow> (Inl e, s')
      | None \<Rightarrow> (Inr (), s'\<lparr>entities := (entities s)(k := None)\<rparr>))"

section \<open>The connector\<close>

definition NAMESPACE :: string where
  "NAMESPACE = ''entity-storage''"

definition CLASS_NAME :: string where
  "CLASS_NAME = ''EntityStorageImmutableStorageConnector''"

text \<open>The \<open>catch\<close> clause shared by the three operations: whatever the \<open>try\<close> block throws
  is wrapped as the inner error of a \<open>GeneralError\<close> with the operation's message.\<close>

definition catch_wrap :: "string \<Rightarrow> (error + 'a) \<times> entity_storage \<Rightarrow> (error + 'a) \<times> entity_storage" where
  "catch_wrap message r =
     (case r of
        (Inl e, s) \<Rightarrow> (Inl (GeneralError CLASS_NAME message (Some e)), s)
      | (Inr v, s) \<Rightarrow> (Inr v, s))"

subsection \<open>store\<close>

text \<open>The body of the \<open>try\<close> block, then the operation with its guards and its
  \<open>catch\<close> clause.\<close>

definition store_try ::
  "(nat \<Rightarrow> byte) \<Rightarrow> string \<Rightarrow> byte list \<Rightarrow> entity_storage \<Rightarrow> (error + string) \<times> entity_storage" where
  "store_try rnd controller data s =
     (let immutableItemId = bytesToHex (RandomHelper_generate rnd 32);
          immutableItem = \<lparr>item_id = immutableItemId, item_controller = controller,
                           item_data = bytesToBase64 data\<rparr>
      in case es_set immutableItem s of
           (Inl e, s') \<Rightarrow> (Inl e, s')
         | (Inr _, s') \<Rightarrow>
             (Inr (''immutable:'' @ Urn_toString (Urn_new NAMESPACE immutableItemId)), s'))"

definition store ::
  "(nat \<Rightarrow> byte) \<Rightarrow> string \<Rightarrow> byte list \<Rightarrow> entity_storage \<Rightarrow> (error + string) \<times> entity_storage" where
  "store rnd controller data s =
     (case Guards_stringValue CLASS_NAME ''controller'' controller of
        Some e \<Rightarrow> (Inl e, s)
      | None \<Rightarrow>
     (case Guards_uint8Array CLASS_NAME ''data'' data of
        Some e \<Rightarrow> (Inl e, s)
      | None \<Rightarrow> catch_wrap ''storingFailed'' (store_try rnd controller data s)))"

subsection \<open>get\<close>

text \<open>The body of the \<open>try\<close> block, then the operation. The parameter \<open>id\<close> of the source
  is \<open>ident\<close> here.\<close>

definition get_try :: "urn \<Rightarrow> entity_storage \<Rightarrow> (error + byte list) \<times> entity_storage" where
  "get_try urnParsed s =
     (let immutableItemId = namespaceSpecific 1 urnParsed in
      case es_get immutableItemId s of
        (Inl e, s') \<Rightarrow> (Inl e, s')
      | (Inr None, s') \<Rightarrow> (Inl (NotFoundError CLASS_NAME ''immutableStorageNotFound''), s')
      | (Inr (Some immutableItem), s') \<Rightarrow>
          (case base64ToBytes (item_data immutableItem) of
             None \<Rightarrow> (Inl (ExternalError ''base64ToBytes''), s')
           | Some bytes \<Rightarrow> (Inr bytes, s')))"

definition get :: "string \<Rightarrow> entity_storage \<Rightarrow> (error + byte list) \<times> entity_storage" where
  "get ident s =
     (case Urn_guard CLASS_NAME ''id'' ident of
        Some e \<Rightarrow> (Inl e, s)
      | None \<Rightarrow>
     (let urnParsed = Urn_fromValidString ident in
      if namespaceMethod urnParsed \<noteq> NAMESPACE
      then (Inl (GeneralError CLASS_NAME ''namespaceMismatch'' None), s)
      else catch_wrap ''gettingFailed'' (get_try urnParsed s)))"

subsection \<open>remove\<close>

text \<open>The operation \<open>remove\<close> of the source is \<open>remove_item\<close> here, since \<open>remove\<close> is
  a constant of HOL.\<close>

definition remove_try ::
  "string \<Rightarrow> urn \<Rightarrow> entity_storage \<Rightarrow> (error + unit) \<times> entity_storage" where
  "remove_try controller urnParsed s =
     (let immutableItemId = namespaceSpecific 1 urnParsed in
      case es_get immutableItemId s of
        (Inl e, s') \<Rightarrow> (Inl e, s')
      | (Inr None, s') \<Rightarrow> (Inl (NotFoundError CLASS_NAME ''immutableStorageNotFound''), s')
      | (Inr (Some immutableItem), s') \<Rightarrow>
          (if item_controller immutableItem \<noteq> controller
           then (Inl (GeneralError CLASS_NAME ''notControllerRemove'' None), s')
           else es_remove immutableItemId s'))"

definition remove_item ::
  "string \<Rightarrow> string \<Rightarrow> entity_storage \<Rightarrow> (error + unit) \<times> entity_storage" where
  "remove_item controller ident s =
     (case Guards_stringValue CLASS_NAME ''controller'' controller of
        Some e \<Rightarrow> (Inl e, s)
      | None \<Rightarrow>
     (case Urn_guard CLASS_NAME ''id'' ident of
        Some e \<Rightarrow> (Inl e, s)
      | None \<Rightarrow>
     (let urnParsed = Urn_fromValidString ident in
      if namespaceMethod urnParsed \<noteq> NAMESPACE
      then (Inl (GeneralError CLASS_NAME ''namespaceMismatch'' None), s)
      else catch_wrap ''removingFailed'' (remove_try controller urnParsed s))))"

subsection \<open>Fixtures: a fresh backing store and a fixed entropy\<close>

definition empty_storage :: entity_storage where
  "empty_storage = \<lparr>entities = Map.empty, fault = None, calls = []\<rparr>"

text \<open>A fixed entropy for the examples: the generator yields zero bytes only.\<close>

definition zero_entropy :: "nat \<Rightarrow> byte" where
  "zero_entropy i = 0"

text \<open>The identifier that \<open>store\<close> returns under this entropy, and the backing store
  after the controller \<open>alice\<close> has stored three bytes in a fresh one.\<close>

definition zero_urn :: string where
  "zero_urn =
     ''immutable:entity-storage:0000000000000000000000000000000000000000000000000000000000000000''"

definition alice_storage :: entity_storage where
  "alice_storage = snd (store zero_entropy ''alice'' [1, 2, 3] empty_storage)"

section \<open>Facts about the library helpers\<close>

subsection \<open>Splitting and joining\<close>

lemma split_on_nonempty: "split_on d s \<noteq> []"
  by (induction s) (auto split: list.splits)

lemma split_on_no_delim: "d \<notin> set a \<Longrightarrow> split_on d a = [a]"
  by (induction a) (auto split: list.splits)

lemma split_on_append: "d \<notin> set a \<Longrightarrow> split_on d (a @ d # b) = a # split_on d b"
  by (induction a) (auto split: list.splits)

lemma split_three:
  assumes "d \<notin> set a" "d \<notin> set b" "d \<notin> set c"
  shows "split_on d (a @ d # b @ d # c) = [a, b, c]"
  using assms by (simp add: split_on_append split_on_no_delim)

subsection \<open>Hexadecimal\<close>

lemma unat_byte_lt: "unat (b::byte) < 256"
  using unsigned_less[of b, where 'a=nat] by simp

lemma hexChars_length: "length hexChars = 16"
  by (simp add: hexChars_def)

lemma hexChars_nth: "n < 16 \<Longrightarrow> hexChars ! n \<in> set hexChars"
  using nth_mem[of n hexChars] by (simp only: hexChars_length)

lemma byteToHex_set: "set (byteToHex b) \<subseteq> set hexChars"
proof -
  have "unat b div 16 < 16" using unat_byte_lt[of b] by simp
  moreover have "unat b mod 16 < 16" by simp
  ultimately show ?thesis
    unfolding byteToHex_def using hexChars_nth by simp
qed

lemma bytesToHex_set: "set (bytesToHex bs) \<subseteq> set hexChars"
  using byteToHex_set by (induction bs) (auto simp: bytesToHex_def)

lemma bytesToHex_length: "length (bytesToHex bs) = 2 * length bs"
  by (induction bs) (auto simp: bytesToHex_def byteToHex_def)

lemma bytesToHex_no_colon: "CHR '':'' \<notin> set (bytesToHex bs)"
proof -
  have "CHR '':'' \<notin> set hexChars" by (simp add: hexChars_def)
  then show ?thesis using bytesToHex_set[of bs] by blast
qed

lemma generate_length: "length (RandomHelper_generate rnd n) = n"
  by (simp add: RandomHelper_generate_def)

lemma generated_id_length: "length (bytesToHex (RandomHelper_generate rnd 32)) = 64"
  by (simp add: bytesToHex_length generate_length)

lemma generated_id_nonempty: "bytesToHex (RandomHelper_generate rnd 32) \<noteq> []"
  using generated_id_length[of rnd] by auto

subsection \<open>Base64: decoding inverts encoding\<close>

lemma divmod_step:
  fixes x c :: nat
  assumes "c < 256"
  shows "(x * 256 + c) div 256 = x" and "(x * 256 + c) mod 256 = c"
  using assms by simp_all

lemma group3:
  fixes A B C :: nat
  assumes "A < 256" "B < 256" "C < 256"
  shows "(A * 65536 + B * 256 + C) div 65536 = A"
    and "(A * 65536 + B * 256 + C) div 256 mod 256 = B"
    and "(A * 65536 + B * 256 + C) mod 256 = C"
proof -
  have e: "A * 65536 + B * 256 + C = (A * 256 + B) * 256 + C" by simp
  have d: "(A * 65536 + B * 256 + C) div 256 = A * 256 + B"
    unfolding e using assms(3) by (rule divmod_step(1))
  show "(A * 65536 + B * 256 + C) mod 256 = C"
    unfolding e using assms(3) by (rule divmod_step(2))
  show "(A * 65536 + B * 256 + C) div 256 mod 256 = B"
    unfolding d using assms(2) by (rule divmod_step(2))
  have "(A * 65536 + B * 256 + C) div 65536 = (A * 65536 + B * 256 + C) div 256 div 256"
    by (simp add: div_mult2_eq)
  also have "\<dots> = A" unfolding d using assms(2) by (rule divmod_step(1))
  finally show "(A * 65536 + B * 256 + C) div 65536 = A" .
qed

lemma group_lt:
  fixes A B C :: nat
  assumes "A < 256" "B < 256" "C < 256"
  shows "A * 65536 + B * 256 + C < 16777216"
  using assms by simp

lemma sextets_recompose:
  fixes n :: nat
  shows "n div 262144 * 262144 + n div 4096 mod 64 * 4096 + n div 64 mod 64 * 64 + n mod 64 = n"
proof -
  define q1 where "q1 = n div 64"
  define q2 where "q2 = q1 div 64"
  define q3 where "q3 = q2 div 64"
  define r0 where "r0 = n mod 64"
  define r1 where "r1 = q1 mod 64"
  define r2 where "r2 = q2 mod 64"
  have a: "n div 4096 = q2" by (simp add: q2_def q1_def div_mult2_eq)
  have b: "n div 262144 = q3" by (simp add: q3_def q2_def q1_def div_mult2_eq)
  have n0: "n = q1 * 64 + r0" by (simp add: q1_def r0_def)
  have n1: "q1 = q2 * 64 + r1" by (simp add: q2_def r1_def)
  have n2: "q2 = q3 * 64 + r2" by (simp add: q3_def r2_def)
  have "q3 * 262144 + r2 * 4096 + r1 * 64 + r0 = n"
    by (simp add: n0 n1 n2)
  then show ?thesis
    by (simp only: a b q1_def[symmetric] r0_def[symmetric] r1_def[symmetric] r2_def[symmetric])
qed

lemma recompose2:
  fixes n k :: nat
  assumes "n = k * 64"
  shows "n div 262144 * 262144 + n div 4096 mod 64 * 4096 + n div 64 mod 64 * 64 = n"
proof -
  have "n mod 64 = 0" by (simp add: assms)
  then show ?thesis using sextets_recompose[of n] by simp
qed

lemma recompose1:
  fixes n k :: nat
  assumes "n = k * 4096"
  shows "n div 262144 * 262144 + n div 4096 mod 64 * 4096 = n"
proof -
  have "n = (k * 64) * 64" by (simp add: assms)
  then have "n div 64 = k * 64" by simp
  then have "n div 64 mod 64 = 0" by simp
  then show ?thesis using recompose2[of n "k * 64"] assms by simp
qed

lemma base64Chars_length: "length base64Chars = 64"
  by (simp add: base64Chars_def)

lemma base64Chars_distinct: "distinct base64Chars"
  by (simp add: base64Chars_def)

lemma b64_value_char: "n < 64 \<Longrightarrow> b64_value (b64_char n) = Some n"
proof -
  assume n: "n < 64"
  have "map_of (zip base64Chars [0..<64]) (base64Chars ! n) = Some ([0..<64] ! n)"
    by (rule map_of_zip_nth) (simp_all add: base64Chars_length base64Chars_distinct n)
  then show ?thesis
    unfolding b64_value_def b64_char_def using n by (simp only: nth_upt add_0)
qed

lemma b64_char_not_pad: "n < 64 \<Longrightarrow> b64_char n \<noteq> CHR ''=''"
proof -
  assume "n < 64"
  then have "b64_char n \<in> set base64Chars"
    unfolding b64_char_def using nth_mem[of n base64Chars] by (simp only: base64Chars_length)
  moreover have "CHR ''='' \<notin> set base64Chars" by (simp add: base64Chars_def)
  ultimately show ?thesis by metis
qed

lemma decode_group:
  assumes "s0 < 64" "s1 < 64" "s2 < 64" "s3 < 64"
  shows "base64ToBytes (b64_char s0 # b64_char s1 # b64_char s2 # b64_char s3 # rest) =
          (case base64ToBytes rest of None \<Rightarrow> None
            | Some bs \<Rightarrow> Some (of_nat ((s0 * 262144 + s1 * 4096 + s2 * 64 + s3) div 65536)
                 # of_nat ((s0 * 262144 + s1 * 4096 + s2 * 64 + s3) div 256 mod 256)
                 # of_nat ((s0 * 262144 + s1 * 4096 + s2 * 64 + s3) mod 256) # bs))"
  using assms by (simp add: b64_value_char b64_char_not_pad Let_def)

lemma decode_pad1:
  assumes "s0 < 64" "s1 < 64" "s2 < 64"
  shows "base64ToBytes [b64_char s0, b64_char s1, b64_char s2, CHR ''=''] =
            Some [of_nat ((s0 * 262144 + s1 * 4096 + s2 * 64) div 65536),
                  of_nat ((s0 * 262144 + s1 * 4096 + s2 * 64) div 256 mod 256)]"
  using assms by (simp add: b64_value_char b64_char_not_pad Let_def)

lemma decode_pad2:
  assumes "s0 < 64" "s1 < 64"
  shows "base64ToBytes [b64_char s0, b64_char s1, CHR ''='', CHR ''=''] =
          Some [of_nat ((s0 * 262144 + s1 * 4096) div 65536)]"
  using assms by (simp add: b64_value_char)

lemma base64_roundtrip: "base64ToBytes (bytesToBase64 bs) = Some bs"
proof (induction bs rule: bytesToBase64.induct)
  case 1
  show ?case by simp
next
  case (2 a)
  define n where "n = unat a * 65536"
  have lt: "n < 16777216" using group_lt[OF unat_byte_lt[of a], of 0 0] by (simp add: n_def)
  have r: "n div 262144 * 262144 + n div 4096 mod 64 * 4096 = n"
    by (rule recompose1[of n "unat a * 16"]) (simp add: n_def)
  have d: "n div 65536 = unat a" by (simp add: n_def)
  have "base64ToBytes (bytesToBase64 [a]) =
          base64ToBytes [b64_char (n div 262144), b64_char (n div 4096 mod 64), CHR ''='', CHR ''='']"
    by (simp add: n_def Let_def)
  also have "\<dots> = Some [of_nat ((n div 262144 * 262144 + n div 4096 mod 64 * 4096) div 65536)]"
    using lt by (intro decode_pad2) simp_all
  also have "\<dots> = Some [a]" by (simp only: r d of_nat_unat ucast_id)
  finally show ?case .
next
  case (3 a b)
  define n where "n = unat a * 65536 + unat b * 256"
  have lt: "n < 16777216"
    using group_lt[OF unat_byte_lt[of a] unat_byte_lt[of b], of 0] by (simp add: n_def)
  have r: "n div 262144 * 262144 + n div 4096 mod 64 * 4096 + n div 64 mod 64 * 64 = n"
    by (rule recompose2[of n "unat a * 1024 + unat b * 4"]) (simp add: n_def)
  have d: "n div 65536 = unat a" "n div 256 mod 256 = unat b"
    using group3[OF unat_byte_lt[of a] unat_byte_lt[of b], of 0] by (simp_all add: n_def)
  have "base64ToBytes (bytesToBase64 [a, b]) =
          base64ToBytes [b64_char (n div 262144), b64_char (n div 4096 mod 64),
                         b64_char (n div 64 mod 64), CHR ''='']"
    by (simp add: n_def Let_def)
  also have "\<dots> = Some [of_nat ((n div 262144 * 262144 + n div 4096 mod 64 * 4096
                                  + n div 64 mod 64 * 64) div 65536),
                     of_nat ((n div 262144 * 262144 + n div 4096 mod 64 * 4096
                                  + n div 64 mod 64 * 64) div 256 mod 256)]"
    using lt by (intro decode_pad1) simp_all
  also have "\<dots> = Some [a, b]" by (simp only: r d of_nat_unat ucast_id)
  finally show ?case .
next
  case (4 a b c rest)
  define n where "n = unat a * 65536 + unat b * 256 + unat c"
  have lt: "n < 16777216"
    using group_lt[OF unat_byte_lt[of a] unat_byte_lt[of b] unat_byte_lt[of c]]
    by (simp add: n_def)
  have r: "n div 262144 * 262144 + n div 4096 mod 64 * 4096 + n div 64 mod 64 * 64 + n mod 64 = n"
    by (rule sextets_recompose)
  have d: "n div 65536 = unat a" "n div 256 mod 256 = unat b" "n mod 256 = unat c"
    using group3[OF unat_byte_lt[of a] unat_byte_lt[of b] unat_byte_lt[of c]]
    by (simp_all add: n_def)
  have "base64ToBytes (bytesToBase64 (a # b # c # rest)) =
          base64ToBytes (b64_char (n div 262144) # b64_char (n div 4096 mod 64) #
                         b64_char (n div 64 mod 64) # b64_char (n mod 64) # bytesToBase64 rest)"
    by (simp add: n_def Let_def)
  also have "\<dots> = (case base64ToBytes (bytesToBase64 rest) of None \<Rightarrow> None
            | Some bs \<Rightarrow> Some (of_nat ((n div 262144 * 262144 + n div 4096 mod 64 * 4096
                                          + n div 64 mod 64 * 64 + n mod 64) div 65536)
                 # of_nat ((n div 262144 * 262144 + n div 4096 mod 64 * 4096
                                          + n div 64 mod 64 * 64 + n mod 64) div 256 mod 256)
                 # of_nat ((n div 262144 * 262144 + n div 4096 mod 64 * 4096
                                          + n div 64 mod 64 * 64 + n mod 64) mod 256) # bs))"
    using lt by (intro decode_group) simp_all
  also have "\<dots> = Some (a # b # c # rest)"
    by (simp only: r d of_nat_unat ucast_id "4.IH" option.case)
  finally show ?case .
qed

section \<open>Facts about the connector\<close>

subsection \<open>Identifiers and \<open>get\<close>\<close>

lemma Urn_validate_parts:
  assumes "Urn_validate ident"
  obtains ns m sp where "split_on CHR '':'' ident = [ns, m, sp]" "ns \<noteq> []" "m \<noteq> []" "sp \<noteq> []"
  using assms unfolding Urn_validate_def
  by (auto split: list.splits)

lemma parsed_method: "split_on CHR '':'' ident = [ns, m, sp] \<Longrightarrow> namespaceMethod (Urn_fromValidString ident) = m"
  by (simp add: namespaceMethod_def Urn_fromValidString_def)

lemma parsed_specific: "split_on CHR '':'' ident = [ns, m, sp] \<Longrightarrow> namespaceSpecific 1 (Urn_fromValidString ident) = sp"
  by (simp add: namespaceSpecific_def Urn_fromValidString_def)

lemma formatted_parts:
  assumes "CHR '':'' \<notin> set ns" "CHR '':'' \<notin> set m" "CHR '':'' \<notin> set sp"
  shows "split_on CHR '':'' (ns @ '':'' @ m @ '':'' @ sp) = [ns, m, sp]"
  using split_three[OF assms] by simp

lemma Urn_toString_new:
  assumes "CHR '':'' \<notin> set sp"
  shows "Urn_toString (Urn_new m sp) = m @ '':'' @ sp"
  using assms by (simp add: Urn_toString_def Urn_new_def split_on_no_delim)

lemma NAMESPACE_no_colon: "CHR '':'' \<notin> set NAMESPACE"
  by (simp add: NAMESPACE_def)

lemma record_urn_parts:
  assumes "CHR '':'' \<notin> set k"
  shows "split_on CHR '':'' (''immutable:'' @ NAMESPACE @ '':'' @ k) = [''immutable'', NAMESPACE, k]"
  using formatted_parts[of "''immutable''" NAMESPACE k] assms NAMESPACE_no_colon by simp

lemma record_urn_valid:
  assumes "CHR '':'' \<notin> set k" "k \<noteq> []"
  shows "Urn_validate (''immutable:'' @ NAMESPACE @ '':'' @ k)"
  unfolding Urn_validate_def record_urn_parts[OF assms(1)] using assms(2)
  by (simp add: NAMESPACE_def)

lemma get_guarded:
  assumes "\<not> Urn_validate ident"
  shows "get ident s = (Inl (GuardError CLASS_NAME ''id''), s)"
  using assms by (simp add: get_def Urn_guard_def)

lemma get_mismatch:
  assumes "Urn_validate ident" "namespaceMethod (Urn_fromValidString ident) \<noteq> NAMESPACE"
  shows "get ident s = (Inl (GeneralError CLASS_NAME ''namespaceMismatch'' None), s)"
  using assms by (simp add: get_def Urn_guard_def)

lemma get_matching:
  assumes "Urn_validate ident" "namespaceMethod (Urn_fromValidString ident) = NAMESPACE"
  shows "get ident s = catch_wrap ''gettingFailed'' (get_try (Urn_fromValidString ident) s)"
  using assms by (simp add: get_def Urn_guard_def)

lemma get_try_absent:
  assumes "fault s = None" "entities s (namespaceSpecific 1 u) = None"
  shows "get_try u s = (Inl (NotFoundError CLASS_NAME ''immutableStorageNotFound''),
                        s\<lparr>calls := calls s @ [EsGet (namespaceSpecific 1 u)]\<rparr>)"
  using assms by (simp add: get_try_def es_get_def Let_def)

lemma get_try_found:
  assumes "fault s = None" "entities s (namespaceSpecific 1 u) = Some item"
  shows "get_try u s = ((case base64ToBytes (item_data item) of
                           None \<Rightarrow> Inl (ExternalError ''base64ToBytes'') | Some bytes \<Rightarrow> Inr bytes),
                        s\<lparr>calls := calls s @ [EsGet (namespaceSpecific 1 u)]\<rparr>)"
  using assms by (simp add: get_try_def es_get_def Let_def split: option.splits)

lemma get_try_fault:
  assumes "fault s = Some e"
  shows "get_try u s = (Inl e, s\<lparr>calls := calls s @ [EsGet (namespaceSpecific 1 u)]\<rparr>)"
  using assms by (simp add: get_try_def es_get_def Let_def)

lemma get_entities: "entities (snd (get ident s)) = entities s"
  by (simp add: get_def get_try_def es_get_def catch_wrap_def Let_def
      split: option.splits prod.splits sum.splits)

lemma get_fault: "fault (snd (get ident s)) = fault s"
  by (simp add: get_def get_try_def es_get_def catch_wrap_def Let_def
      split: option.splits prod.splits sum.splits)

subsection \<open>\<open>store\<close> and \<open>remove\<close>\<close>

lemma store_guard_controller:
  "store rnd [] data s = (Inl (GuardError CLASS_NAME ''controller''), s)"
  by (simp add: store_def Guards_stringValue_def)

lemma store_guarded:
  assumes "controller \<noteq> []"
  shows "store rnd controller data s = catch_wrap ''storingFailed'' (store_try rnd controller data s)"
  using assms by (simp add: store_def Guards_stringValue_def Guards_uint8Array_def)

lemma store_ok:
  assumes "controller \<noteq> []" "fault s = None"
  shows "store rnd controller data s =
           (Inr (''immutable:'' @ NAMESPACE @ '':'' @ bytesToHex (RandomHelper_generate rnd 32)),
            s\<lparr>calls := calls s @ [EsSet \<lparr>item_id = bytesToHex (RandomHelper_generate rnd 32),
                                          item_controller = controller,
                                          item_data = bytesToBase64 data\<rparr>],
              entities := (entities s)(bytesToHex (RandomHelper_generate rnd 32) \<mapsto>
                             \<lparr>item_id = bytesToHex (RandomHelper_generate rnd 32),
                              item_controller = controller,
                              item_data = bytesToBase64 data\<rparr>)\<rparr>)"
  unfolding store_guarded[OF assms(1)]
  using assms(2)
  by (simp add: store_try_def es_set_def catch_wrap_def Let_def Urn_toString_new bytesToHex_no_colon)

lemma store_fault:
  assumes "controller \<noteq> []" "fault s = Some e"
  shows "fst (store rnd controller data s) = Inl (GeneralError CLASS_NAME ''storingFailed'' (Some e))"
  unfolding store_guarded[OF assms(1)]
  using assms(2)
  by (simp add: store_try_def es_set_def catch_wrap_def Let_def)

lemma store_succeeds_only_if:
  assumes "store rnd controller data s = (Inr ident, s')"
  shows "controller \<noteq> []" "fault s = None"
proof -
  show c: "controller \<noteq> []"
    using assms store_guard_controller[of rnd data s] by auto
  show "fault s = None"
  proof (cases "fault s")
    case None
    then show ?thesis .
  next
    case (Some e)
    then show ?thesis using store_fault[OF c Some, of rnd data] assms by simp
  qed
qed

lemma store_calls:
  assumes "controller \<noteq> []"
  shows "calls (snd (store rnd controller data s)) =
           calls s @ [EsSet \<lparr>item_id = bytesToHex (RandomHelper_generate rnd 32),
                                 item_controller = controller,
                                 item_data = bytesToBase64 data\<rparr>]"
  unfolding store_guarded[OF assms]
  by (simp add: store_try_def es_set_def catch_wrap_def Let_def split: option.splits)

lemma store_keeps: "entities s k = Some item \<Longrightarrow> entities (snd (store rnd controller data s)) k \<noteq> None"
  by (simp add: store_def store_try_def es_set_def catch_wrap_def Let_def
      split: option.splits prod.splits sum.splits)

lemma remove_guard_controller:
  "remove_item [] ident s = (Inl (GuardError CLASS_NAME ''controller''), s)"
  by (simp add: remove_item_def Guards_stringValue_def)

lemma remove_guard_id:
  assumes "controller \<noteq> []" "\<not> Urn_validate ident"
  shows "remove_item controller ident s = (Inl (GuardError CLASS_NAME ''id''), s)"
  using assms by (simp add: remove_item_def Guards_stringValue_def Urn_guard_def)

lemma remove_mismatch:
  assumes "controller \<noteq> []" "Urn_validate ident"
          "namespaceMethod (Urn_fromValidString ident) \<noteq> NAMESPACE"
  shows "remove_item controller ident s = (Inl (GeneralError CLASS_NAME ''namespaceMismatch'' None), s)"
  using assms by (simp add: remove_item_def Guards_stringValue_def Urn_guard_def)

lemma remove_matching:
  assumes "controller \<noteq> []" "Urn_validate ident"
          "namespaceMethod (Urn_fromValidString ident) = NAMESPACE"
  shows "remove_item controller ident s =
           catch_wrap ''removingFailed'' (remove_try controller (Urn_fromValidString ident) s)"
  using assms by (simp add: remove_item_def Guards_stringValue_def Urn_guard_def)

lemma remove_try_absent:
  assumes "fault s = None" "entities s (namespaceSpecific 1 u) = None"
  shows "remove_try controller u s =
           (Inl (NotFoundError CLASS_NAME ''immutableStorageNotFound''),
            s\<lparr>calls := calls s @ [EsGet (namespaceSpecific 1 u)]\<rparr>)"
  using assms by (simp add: remove_try_def es_get_def Let_def)

lemma remove_try_not_controller:
  assumes "fault s = None" "entities s (namespaceSpecific 1 u) = Some item"
          "item_controller item \<noteq> controller"
  shows "remove_try controller u s =
           (Inl (GeneralError CLASS_NAME ''notControllerRemove'' None),
            s\<lparr>calls := calls s @ [EsGet (namespaceSpecific 1 u)]\<rparr>)"
  using assms by (simp add: remove_try_def es_get_def Let_def)

lemma remove_try_ok:
  assumes "fault s = None" "entities s (namespaceSpecific 1 u) = Some item"
          "item_controller item = controller"
  shows "remove_try controller u s =
           (Inr (),
            s\<lparr>calls := calls s @ [EsGet (namespaceSpecific 1 u), EsRemove (namespaceSpecific 1 u)],
              entities := (entities s)(namespaceSpecific 1 u := None)\<rparr>)"
  using assms by (simp add: remove_try_def es_get_def es_remove_def Let_def)

lemma remove_deletes_only_if:
  assumes "entities s k = Some item" "entities (snd (remove_item controller ident s)) k = None"
  shows "fst (remove_item controller ident s) = Inr () \<and> item_controller item = controller
         \<and> namespaceSpecific 1 (Urn_fromValidString ident) = k"
  using assms
  by (auto simp add: remove_item_def remove_try_def es_get_def es_remove_def catch_wrap_def Let_def
      split: option.splits prod.splits sum.splits if_splits)

subsection \<open>Operations on a record kept under a well-formed key\<close>

lemma record_urn_method:
  assumes "CHR '':'' \<notin> set k"
  shows "namespaceMethod (Urn_fromValidString (''immutable:'' @ NAMESPACE @ '':'' @ k)) = NAMESPACE"
  using record_urn_parts[OF assms] by (rule parsed_method)

lemma record_urn_specific:
  assumes "CHR '':'' \<notin> set k"
  shows "namespaceSpecific 1 (Urn_fromValidString (''immutable:'' @ NAMESPACE @ '':'' @ k)) = k"
  using record_urn_parts[OF assms] by (rule parsed_specific)

lemma get_record:
  assumes "fault s = None" "k \<noteq> []" "CHR '':'' \<notin> set k"
          "entities s k = Some item" "base64ToBytes (item_data item) = Some d"
  shows "get (''immutable:'' @ NAMESPACE @ '':'' @ k) s = (Inr d, s\<lparr>calls := calls s @ [EsGet k]\<rparr>)"
proof -
  let ?i = "''immutable:'' @ NAMESPACE @ '':'' @ k"
  have sp: "namespaceSpecific 1 (Urn_fromValidString ?i) = k"
    by (rule record_urn_specific[OF assms(3)])
  have "get ?i s = catch_wrap ''gettingFailed'' (get_try (Urn_fromValidString ?i) s)"
    by (rule get_matching[OF record_urn_valid[OF assms(3,2)] record_urn_method[OF assms(3)]])
  also have "get_try (Urn_fromValidString ?i) s = (Inr d, s\<lparr>calls := calls s @ [EsGet k]\<rparr>)"
    using get_try_found[of s "Urn_fromValidString ?i" item] assms(1,4,5) unfolding sp by simp
  finally show ?thesis by (simp add: catch_wrap_def)
qed

lemma get_no_record:
  assumes "fault s = None" "k \<noteq> []" "CHR '':'' \<notin> set k" "entities s k = None"
  shows "get (''immutable:'' @ NAMESPACE @ '':'' @ k) s =
           (Inl (GeneralError CLASS_NAME ''gettingFailed''
                   (Some (NotFoundError CLASS_NAME ''immutableStorageNotFound''))),
            s\<lparr>calls := calls s @ [EsGet k]\<rparr>)"
proof -
  let ?i = "''immutable:'' @ NAMESPACE @ '':'' @ k"
  have sp: "namespaceSpecific 1 (Urn_fromValidString ?i) = k"
    by (rule record_urn_specific[OF assms(3)])
  have "get ?i s = catch_wrap ''gettingFailed'' (get_try (Urn_fromValidString ?i) s)"
    by (rule get_matching[OF record_urn_valid[OF assms(3,2)] record_urn_method[OF assms(3)]])
  also have "get_try (Urn_fromValidString ?i) s =
               (Inl (NotFoundError CLASS_NAME ''immutableStorageNotFound''),
                s\<lparr>calls := calls s @ [EsGet k]\<rparr>)"
    using get_try_absent[of s "Urn_fromValidString ?i"] assms(1,4) unfolding sp by simp
  finally show ?thesis by (simp add: catch_wrap_def)
qed

lemma remove_record_other:
  assumes "fault s = None" "k \<noteq> []" "CHR '':'' \<notin> set k" "entities s k = Some item"
          "controller \<noteq> []" "item_controller item \<noteq> controller"
  shows "remove_item controller (''immutable:'' @ NAMESPACE @ '':'' @ k) s =
           (Inl (GeneralError CLASS_NAME ''removingFailed''
                   (Some (GeneralError CLASS_NAME ''notControllerRemove'' None))),
            s\<lparr>calls := calls s @ [EsGet k]\<rparr>)"
proof -
  let ?i = "''immutable:'' @ NAMESPACE @ '':'' @ k"
  have sp: "namespaceSpecific 1 (Urn_fromValidString ?i) = k"
    by (rule record_urn_specific[OF assms(3)])
  have "remove_item controller ?i s =
          catch_wrap ''removingFailed'' (remove_try controller (Urn_fromValidString ?i) s)"
    by (rule remove_matching[OF assms(5) record_urn_valid[OF assms(3,2)] record_urn_method[OF assms(3)]])
  also have "remove_try controller (Urn_fromValidString ?i) s =
               (Inl (GeneralError CLASS_NAME ''notControllerRemove'' None),
                s\<lparr>calls := calls s @ [EsGet k]\<rparr>)"
    using remove_try_not_controller[of s "Urn_fromValidString ?i" item controller] assms(1,4,6)
    unfolding sp by simp
  finally show ?thesis by (simp add: catch_wrap_def)
qed

lemma remove_record_owner:
  assumes "fault s = None" "k \<noteq> []" "CHR '':'' \<notin> set k" "entities s k = Some item"
          "controller \<noteq> []" "item_controller item = controller"
  shows "remove_item controller (''immutable:'' @ NAMESPACE @ '':'' @ k) s =
           (Inr (), s\<lparr>calls := calls s @ [EsGet k, EsRemove k],
                       entities := (entities s)(k := None)\<rparr>)"
proof -
  let ?i = "''immutable:'' @ NAMESPACE @ '':'' @ k"
  have sp: "namespaceSpecific 1 (Urn_fromValidString ?i) = k"
    by (rule record_urn_specific[OF assms(3)])
  have "remove_item controller ?i s =
          catch_wrap ''removingFailed'' (remove_try controller (Urn_fromValidString ?i) s)"
    by (rule remove_matching[OF assms(5) record_urn_valid[OF assms(3,2)] record_urn_method[OF assms(3)]])
  also have "remove_try controller (Urn_fromValidString ?i) s =
               (Inr (), s\<lparr>calls := calls s @ [EsGet k, EsRemove k],
                           entities := (entities s)(k := None)\<rparr>)"
    using remove_try_ok[of s "Urn_fromValidString ?i" item controller] assms(1,4,6)
    unfolding sp by simp
  finally show ?thesis by (simp add: catch_wrap_def)
qed

lemma remove_no_record:
  assumes "fault s = None" "k \<noteq> []" "CHR '':'' \<notin> set k" "entities s k = None"
          "controller \<noteq> []"
  shows "remove_item controller (''immutable:'' @ NAMESPACE @ '':'' @ k) s =
           (Inl (GeneralError CLASS_NAME ''removingFailed''
                   (Some (NotFoundError CLASS_NAME ''immutableStorageNotFound''))),
            s\<lparr>calls := calls s @ [EsGet k]\<rparr>)"
proof -
  let ?i = "''immutable:'' @ NAMESPACE @ '':'' @ k"
  have sp: "namespaceSpecific 1 (Urn_fromValidString ?i) = k"
    by (rule record_urn_specific[OF assms(3)])
  have "remove_item controller ?i s =
          catch_wrap ''removingFailed'' (remove_try controller (Urn_fromValidString ?i) s)"
    by (rule remove_matching[OF assms(5) record_urn_valid[OF assms(3,2)] record_urn_method[OF assms(3)]])
  also have "remove_try controller (Urn_fromValidString ?i) s =
               (Inl (NotFoundError CLASS_NAME ''immutableStorageNotFound''),
                s\<lparr>calls := calls s @ [EsGet k]\<rparr>)"
    using remove_try_absent[of s "Urn_fromValidString ?i" controller] assms(1,4) unfolding sp by simp
  finally show ?thesis by (simp add: catch_wrap_def)
qed

subsection \<open>What a successful \<open>store\<close> leaves behind, and the fixtures\<close>

lemma store_result:
  assumes "store rnd controller data s = (Inr ident, s')"
  shows "ident = ''immutable:'' @ NAMESPACE @ '':'' @ bytesToHex (RandomHelper_generate rnd 32)"
    and "fault s' = None"
    and "entities s' (bytesToHex (RandomHelper_generate rnd 32)) =
           Some \<lparr>item_id = bytesToHex (RandomHelper_generate rnd 32),
                 item_controller = controller, item_data = bytesToBase64 data\<rparr>"
proof -
  note ok = store_ok[OF store_succeeds_only_if[OF assms], of rnd]
  show "ident = ''immutable:'' @ NAMESPACE @ '':'' @ bytesToHex (RandomHelper_generate rnd 32)"
    using assms ok by simp
  show "fault s' = None"
    using assms ok store_succeeds_only_if(2)[OF assms] by auto
  show "entities s' (bytesToHex (RandomHelper_generate rnd 32)) =
           Some \<lparr>item_id = bytesToHex (RandomHelper_generate rnd 32),
                 item_controller = controller, item_data = bytesToBase64 data\<rparr>"
    using assms ok by auto
qed

lemma zero_id:
  "bytesToHex (RandomHelper_generate zero_entropy 32) =
     ''0000000000000000000000000000000000000000000000000000000000000000''"
  by code_simp

lemma zero_urn_eq:
  "zero_urn = ''immutable:'' @ NAMESPACE @ '':'' @ bytesToHex (RandomHelper_generate zero_entropy 32)"
  unfolding zero_id by (simp add: zero_urn_def NAMESPACE_def)

lemma alice_store:
  "store zero_entropy ''alice'' [1, 2, 3] empty_storage = (Inr zero_urn, alice_storage)"
proof -
  have f: "fault empty_storage = None" by (simp add: empty_storage_def)
  have "fst (store zero_entropy ''alice'' [1, 2, 3] empty_storage) = Inr zero_urn"
    unfolding zero_urn_eq
    using store_ok[OF _ f, where controller = "''alice''" and data = "[1, 2, 3]"
                             and rnd = zero_entropy]
    by simp
  then show ?thesis
    unfolding alice_storage_def by (simp add: prod_eq_iff)
qed

lemma alice_record:
  "fault alice_storage = None"
  "entities alice_storage (bytesToHex (RandomHelper_generate zero_entropy 32)) =
     Some \<lparr>item_id = bytesToHex (RandomHelper_generate zero_entropy 32),
           item_controller = ''alice'', item_data = bytesToBase64 [1, 2, 3]\<rparr>"
  using store_result(2,3)[OF alice_store] by simp_all

lemma store_then_get:
  assumes "controller \<noteq> []" "fault s = None"
  shows "\<exists>ident s'. store rnd controller data s = (Inr ident, s') \<and> fst (get ident s') = Inr data"
proof -
  define k where "k = bytesToHex (RandomHelper_generate rnd 32)"
  define item where
    "item = \<lparr>item_id = k, item_controller = controller, item_data = bytesToBase64 data\<rparr>"
  define s' where
    "s' = s\<lparr>calls := calls s @ [EsSet item], entities := (entities s)(k \<mapsto> item)\<rparr>"
  have st: "store rnd controller data s = (Inr (''immutable:'' @ NAMESPACE @ '':'' @ k), s')"
    unfolding k_def item_def s'_def by (rule store_ok[OF assms])
  have "get (''immutable:'' @ NAMESPACE @ '':'' @ k) s' = (Inr data, s'\<lparr>calls := calls s' @ [EsGet k]\<rparr>)"
  proof (rule get_record)
    show "fault s' = None" using assms(2) by (simp add: s'_def)
    show "k \<noteq> []" unfolding k_def by (rule generated_id_nonempty)
    show "CHR '':'' \<notin> set k" unfolding k_def by (rule bytesToHex_no_colon)
    show "entities s' k = Some item" by (simp add: s'_def)
    show "base64ToBytes (item_data item) = Some data" by (simp add: item_def base64_roundtrip)
  qed
  then have "fst (get (''immutable:'' @ NAMESPACE @ '':'' @ k) s') = Inr data" by simp
  with st show ?thesis by blast
qed

lemma empty_data_store:
  "store zero_entropy ''alice'' [] empty_storage =
     (Inr zero_urn,
      \<lparr>entities = [''0000000000000000000000000000000000000000000000000000000000000000'' \<mapsto>
                    \<lparr>item_id = ''0000000000000000000000000000000000000000000000000000000000000000'',
                     item_controller = ''alice'', item_data = []\<rparr>],
       fault = None,
       calls = [EsSet \<lparr>item_id = ''0000000000000000000000000000000000000000000000000000000000000000'',
                        item_controller = ''alice'', item_data = []\<rparr>]\<rparr>)"
proof -
  have f: "fault empty_storage = None" by (simp add: empty_storage_def)
  show ?thesis
    unfolding zero_urn_eq
    using store_ok[OF _ f, where controller = "''alice''" and data = "[]" and rnd = zero_entropy]
    by (simp add: zero_id empty_storage_def)
qed

lemma sample_parts:
  "split_on CHR '':'' ''immutable:entity-storage:ab'' = [''immutable'', ''entity-storage'', ''ab'']"
  "split_on CHR '':'' ''immutable:other-method:ab'' = [''immutable'', ''other-method'', ''ab'']"
  by simp_all

section \<open>The claims\<close>

text \<open>The spec names error kinds; the connector throws these values for them:
  \<^item> a malformed identifier or an empty argument: a \<open>GuardError\<close>;
  \<^item> namespace mismatch: \<open>GeneralError\<close> with the message \<open>namespaceMismatch\<close>;
  \<^item> not found: \<open>NotFoundError\<close> with the message \<open>immutableStorageNotFound\<close>;
  \<^item> not authorized: \<open>GeneralError\<close> with the message \<open>notControllerRemove\<close>;
  \<^item> the generic storage-operation error: \<open>GeneralError\<close> with the message
    \<open>storingFailed\<close>, \<open>gettingFailed\<close> or \<open>removingFailed\<close>, carrying its cause as
    the inner error.\<close>

subsection \<open>C1: \<open>get\<close> on an absent record\<close>

text \<open>C1, as the code has it. For every syntactically valid identifier whose method tag is
  the backend's, when no record exists under the raw id, \<open>get\<close> fails with the generic
  \<open>GeneralError\<close> tagged \<open>gettingFailed\<close>. The \<open>NotFoundError\<close> is thrown inside the
  \<open>try\<close> block, so it reaches the caller only as the inner error of that wrapper, exactly
  as an error thrown by the backing store does. Only the namespace-mismatch error, thrown
  before the \<open>try\<close> block, reaches the caller unwrapped.\<close>

theorem get_absent_wrapped:
  assumes "Urn_validate ident"
  shows "(namespaceMethod (Urn_fromValidString ident) = NAMESPACE
          \<and> entities s (namespaceSpecific 1 (Urn_fromValidString ident)) = None
          \<longrightarrow> fst (get ident s) =
                Inl (GeneralError CLASS_NAME ''gettingFailed''
                       (Some (case fault s of
                                None \<Rightarrow> NotFoundError CLASS_NAME ''immutableStorageNotFound''
                              | Some e \<Rightarrow> e))))
       \<and> (namespaceMethod (Urn_fromValidString ident) \<noteq> NAMESPACE
          \<longrightarrow> fst (get ident s) = Inl (GeneralError CLASS_NAME ''namespaceMismatch'' None))"
proof (intro conjI impI)
  assume m: "namespaceMethod (Urn_fromValidString ident) = NAMESPACE
             \<and> entities s (namespaceSpecific 1 (Urn_fromValidString ident)) = None"
  show "fst (get ident s) =
          Inl (GeneralError CLASS_NAME ''gettingFailed''
                 (Some (case fault s of
                          None \<Rightarrow> NotFoundError CLASS_NAME ''immutableStorageNotFound''
                        | Some e \<Rightarrow> e)))"
  proof (cases "fault s")
    case None
    then show ?thesis
      using get_try_absent[OF None conjunct2[OF m]]
      by (simp add: get_matching[OF assms conjunct1[OF m]] catch_wrap_def)
  next
    case (Some e)
    then show ?thesis
      using get_try_fault[OF Some, of "Urn_fromValidString ident"]
      by (simp add: get_matching[OF assms conjunct1[OF m]] catch_wrap_def)
  qed
next
  assume "namespaceMethod (Urn_fromValidString ident) \<noteq> NAMESPACE"
  then show "fst (get ident s) = Inl (GeneralError CLASS_NAME ''namespaceMismatch'' None)"
    by (simp add: get_mismatch[OF assms])
qed

text \<open>The hypotheses hold for two well-formed identifiers on a fresh backing store, one of
  this backend and one of another method.\<close>

theorem get_absent_wrapped_witness:
  "fst (get ''immutable:entity-storage:ab'' empty_storage) =
     Inl (GeneralError CLASS_NAME ''gettingFailed''
            (Some (NotFoundError CLASS_NAME ''immutableStorageNotFound'')))
   \<and> fst (get ''immutable:other-method:ab'' empty_storage) =
     Inl (GeneralError CLASS_NAME ''namespaceMismatch'' None)"
proof -
  have v: "Urn_validate ''immutable:entity-storage:ab''" "Urn_validate ''immutable:other-method:ab''"
    by (simp_all add: Urn_validate_def)
  have m: "namespaceMethod (Urn_fromValidString ''immutable:entity-storage:ab'') = NAMESPACE"
    by (simp add: parsed_method[OF sample_parts(1)] NAMESPACE_def)
  have n: "namespaceMethod (Urn_fromValidString ''immutable:other-method:ab'') \<noteq> NAMESPACE"
    by (simp add: parsed_method[OF sample_parts(2)] NAMESPACE_def)
  have a: "entities empty_storage
             (namespaceSpecific 1 (Urn_fromValidString ''immutable:entity-storage:ab'')) = None"
    by (simp add: empty_storage_def)
  have f: "fault empty_storage = None"
    by (simp add: empty_storage_def)
  show ?thesis
    using get_absent_wrapped[OF v(1), of empty_storage] get_absent_wrapped[OF v(2), of empty_storage]
      m n a f
    by simp
qed

text \<open>C1 as stated asks for the \<open>NotFoundError\<close> itself, not wrapped. On a fresh backing
  store the error that reaches the caller is the \<open>gettingFailed\<close> wrapper.\<close>

theorem get_absent_counterexample:
  "Urn_validate ''immutable:entity-storage:ab''
   \<and> namespaceMethod (Urn_fromValidString ''immutable:entity-storage:ab'') = NAMESPACE
   \<and> entities empty_storage (namespaceSpecific 1 (Urn_fromValidString ''immutable:entity-storage:ab'')) = None
   \<and> fst (get ''immutable:entity-storage:ab'' empty_storage) =
        Inl (GeneralError CLASS_NAME ''gettingFailed''
               (Some (NotFoundError CLASS_NAME ''immutableStorageNotFound'')))
   \<and> fst (get ''immutable:entity-storage:ab'' empty_storage) \<noteq>
        Inl (NotFoundError CLASS_NAME ''immutableStorageNotFound'')"
  by (simp add: get_def get_try_def Urn_guard_def Urn_validate_def Urn_fromValidString_def
      namespaceMethod_def namespaceSpecific_def NAMESPACE_def es_get_def catch_wrap_def
      empty_storage_def)

subsection \<open>C2: \<open>remove\<close> by another controller\<close>

text \<open>C2, as the code has it. For every record stored with owner \<open>owner\<close> and every
  non-empty caller other than the owner, \<open>remove\<close> fails with the generic
  \<open>GeneralError\<close> tagged \<open>removingFailed\<close>, whose inner error is the
  \<open>notControllerRemove\<close> error; the stored entities are unchanged, and a subsequent
  \<open>get\<close> returns the original payload.\<close>

theorem remove_by_other_controller:
  assumes "store rnd owner data s = (Inr ident, s1)"
      and "caller \<noteq> owner" "caller \<noteq> []"
  shows "\<exists>s2. remove_item caller ident s1 =
                 (Inl (GeneralError CLASS_NAME ''removingFailed''
                         (Some (GeneralError CLASS_NAME ''notControllerRemove'' None))), s2)
              \<and> entities s2 = entities s1
              \<and> fst (get ident s2) = Inr data"
proof -
  define k where "k = bytesToHex (RandomHelper_generate rnd 32)"
  define item where
    "item = \<lparr>item_id = k, item_controller = owner, item_data = bytesToBase64 data\<rparr>"
  define s2 where "s2 = s1\<lparr>calls := calls s1 @ [EsGet k]\<rparr>"
  note r = store_result[OF assms(1), folded k_def item_def]
  have k: "k \<noteq> []" "CHR '':'' \<notin> set k"
    unfolding k_def by (rule generated_id_nonempty, rule bytesToHex_no_colon)
  have rm: "remove_item caller ident s1 =
              (Inl (GeneralError CLASS_NAME ''removingFailed''
                      (Some (GeneralError CLASS_NAME ''notControllerRemove'' None))), s2)"
    unfolding r(1) s2_def
    by (rule remove_record_other[OF r(2) k r(3) assms(3)]) (simp add: item_def assms(2)[symmetric])
  have "get ident s2 = (Inr data, s2\<lparr>calls := calls s2 @ [EsGet k]\<rparr>)"
    unfolding r(1)
  proof (rule get_record)
    show "fault s2 = None" using r(2) by (simp add: s2_def)
    show "entities s2 k = Some item" using r(3) by (simp add: s2_def)
    show "base64ToBytes (item_data item) = Some data" by (simp add: item_def base64_roundtrip)
  qed (rule k)+
  then have "fst (get ident s2) = Inr data" by simp
  moreover have "entities s2 = entities s1" by (simp add: s2_def)
  ultimately show ?thesis using rm by blast
qed

text \<open>The theorem applied to the record that \<open>alice\<close> stored, with \<open>bob\<close> calling.\<close>

theorem remove_by_other_controller_witness:
  "fst (remove_item ''bob'' zero_urn alice_storage) =
     Inl (GeneralError CLASS_NAME ''removingFailed''
            (Some (GeneralError CLASS_NAME ''notControllerRemove'' None)))
   \<and> entities (snd (remove_item ''bob'' zero_urn alice_storage)) = entities alice_storage
   \<and> fst (get zero_urn (snd (remove_item ''bob'' zero_urn alice_storage))) = Inr [1, 2, 3]"
  using remove_by_other_controller[OF alice_store, of "''bob''"] by auto

text \<open>C2 as stated asks for a not-authorized error that is distinct from the generic
  storage-operation error. When \<open>bob\<close> removes the record of \<open>alice\<close>, the error that
  reaches the caller is the \<open>removingFailed\<close> wrapper.\<close>

theorem remove_by_other_counterexample:
  "store zero_entropy ''alice'' [1, 2, 3] empty_storage = (Inr zero_urn, alice_storage)
   \<and> fst (remove_item ''bob'' zero_urn alice_storage) =
        Inl (GeneralError CLASS_NAME ''removingFailed''
               (Some (GeneralError CLASS_NAME ''notControllerRemove'' None)))
   \<and> fst (remove_item ''bob'' zero_urn alice_storage) \<noteq>
        Inl (GeneralError CLASS_NAME ''notControllerRemove'' None)"
proof -
  have "remove_item ''bob'' zero_urn alice_storage =
          (Inl (GeneralError CLASS_NAME ''removingFailed''
                  (Some (GeneralError CLASS_NAME ''notControllerRemove'' None))),
           alice_storage\<lparr>calls := calls alice_storage
                              @ [EsGet (bytesToHex (RandomHelper_generate zero_entropy 32))]\<rparr>)"
    unfolding zero_urn_eq
    by (rule remove_record_other[OF alice_record(1) generated_id_nonempty bytesToHex_no_colon
          alice_record(2)]) simp_all
  then show ?thesis using alice_store by simp
qed

subsection \<open>C3: \<open>store\<close> then \<open>get\<close>\<close>

text \<open>C3. For every non-empty owner and non-empty data, on a backing store that answers,
  \<open>store\<close> returns an identifier, and \<open>get\<close> applied to it returns exactly the data:
  the payload survives the base64 encoding on \<open>store\<close> and the decoding on \<open>get\<close>.\<close>

theorem store_get_roundtrip:
  assumes "controller \<noteq> []" "data \<noteq> []" "fault s = None"
  shows "\<exists>ident s'. store rnd controller data s = (Inr ident, s') \<and> fst (get ident s') = Inr data"
  using store_then_get[OF assms(1,3)] .

text \<open>The three bytes that \<open>alice\<close> stored are read back.\<close>

theorem store_get_roundtrip_witness:
  "fst (get zero_urn alice_storage) = Inr [1, 2, 3]"
  using store_get_roundtrip[of "''alice''" "[1, 2, 3]" empty_storage zero_entropy] alice_store
  by (auto simp add: empty_storage_def)

subsection \<open>C4: empty arguments\<close>

text \<open>C4, as the code has it. \<open>store\<close>, \<open>get\<close> and \<open>remove\<close> reject empty strings
  before any backing-store operation: \<open>store\<close> and \<open>remove\<close> fail on an empty owner,
  \<open>get\<close> and \<open>remove\<close> on an empty identifier, each with a \<open>GuardError\<close>, and the backing
  store that is returned is the one that was given, its log of calls included. Empty data
  is not rejected: it passes the type guard, so with a non-empty owner \<open>store\<close> hands the
  empty payload to the backing store, and when that answers, an identifier is returned on
  which \<open>get\<close> yields the empty byte sequence.\<close>

theorem empty_arguments_rejected:
  "store rnd [] data s = (Inl (GuardError CLASS_NAME ''controller''), s)
   \<and> get [] s = (Inl (GuardError CLASS_NAME ''id''), s)
   \<and> remove_item [] ident s = (Inl (GuardError CLASS_NAME ''controller''), s)
   \<and> remove_item controller [] s \<in>
        {(Inl (GuardError CLASS_NAME ''controller''), s), (Inl (GuardError CLASS_NAME ''id''), s)}
   \<and> (controller \<noteq> [] \<longrightarrow>
         calls (snd (store rnd controller [] s)) =
           calls s @ [EsSet \<lparr>item_id = bytesToHex (RandomHelper_generate rnd 32),
                                 item_controller = controller, item_data = []\<rparr>])
   \<and> (controller \<noteq> [] \<and> fault s = None \<longrightarrow>
         (\<exists>ident' s'. store rnd controller [] s = (Inr ident', s')
                       \<and> fst (get ident' s') = Inr []))"
proof -
  have nv: "\<not> Urn_validate []" by (simp add: Urn_validate_def)
  have b: "remove_item controller [] s \<in>
        {(Inl (GuardError CLASS_NAME ''controller''), s), (Inl (GuardError CLASS_NAME ''id''), s)}"
    using remove_guard_controller[of "[]" s] remove_guard_id[OF _ nv, of controller s]
    by (cases "controller = []") simp_all
  have c: "controller \<noteq> [] \<longrightarrow>
         calls (snd (store rnd controller [] s)) =
           calls s @ [EsSet \<lparr>item_id = bytesToHex (RandomHelper_generate rnd 32),
                                 item_controller = controller, item_data = []\<rparr>]"
    using store_calls[of controller rnd "[]" s] by simp
  have d: "controller \<noteq> [] \<and> fault s = None \<longrightarrow>
         (\<exists>ident' s'. store rnd controller [] s = (Inr ident', s')
                       \<and> fst (get ident' s') = Inr [])"
    using store_then_get[of controller s rnd "[]"] by blast
  show ?thesis
    using b c d store_guard_controller[of rnd data s] get_guarded[OF nv, of s]
      remove_guard_controller[of ident s]
    by blast
qed

text \<open>\<open>alice\<close> stores the empty byte sequence in a fresh backing store and reads it back.\<close>

theorem empty_arguments_rejected_witness:
  "calls (snd (store zero_entropy ''alice'' [] empty_storage)) =
     [EsSet \<lparr>item_id = bytesToHex (RandomHelper_generate zero_entropy 32),
              item_controller = ''alice'', item_data = []\<rparr>]
   \<and> fst (get zero_urn (snd (store zero_entropy ''alice'' [] empty_storage))) = Inr []"
proof -
  have f: "fault empty_storage = None" "calls empty_storage = []"
    by (simp_all add: empty_storage_def)
  have i: "fst (store zero_entropy ''alice'' [] empty_storage) = Inr zero_urn"
    unfolding empty_data_store by simp
  note t = empty_arguments_rejected[where controller = "''alice''" and s = empty_storage
      and rnd = zero_entropy and data = "[]" and ident = "[]"]
  have c: "calls (snd (store zero_entropy ''alice'' [] empty_storage)) =
     [EsSet \<lparr>item_id = bytesToHex (RandomHelper_generate zero_entropy 32),
              item_controller = ''alice'', item_data = []\<rparr>]"
    using t f(2) by simp
  obtain ident' s' where st: "store zero_entropy ''alice'' [] empty_storage = (Inr ident', s')"
    and g: "fst (get ident' s') = Inr []"
    using t f(1) by blast
  have "ident' = zero_urn" "s' = snd (store zero_entropy ''alice'' [] empty_storage)"
    using st i by simp_all
  with g c show ?thesis by simp
qed

text \<open>C4 as stated has \<open>store\<close> fail on empty data without touching the backing store.
  With the owner \<open>alice\<close> and the empty byte sequence, \<open>store\<close> on a fresh backing store
  succeeds, and the store it returns holds a record and one logged call.\<close>

theorem store_empty_data_counterexample:
  "fst (store zero_entropy ''alice'' [] empty_storage) = Inr zero_urn
   \<and> calls (snd (store zero_entropy ''alice'' [] empty_storage)) =
        [EsSet \<lparr>item_id = ''0000000000000000000000000000000000000000000000000000000000000000'',
                 item_controller = ''alice'', item_data = []\<rparr>]
   \<and> snd (store zero_entropy ''alice'' [] empty_storage) \<noteq> empty_storage"
  unfolding empty_data_store by (simp add: empty_storage_def)

subsection \<open>C5: namespace mismatch\<close>

text \<open>C5. For every syntactically valid identifier whose method tag differs from the
  backend's tag \<open>entity-storage\<close>, \<open>get\<close> fails with the namespace-mismatch error, not
  with \<open>NotFoundError\<close>, and performs no backing-store lookup: the backing store, its log
  of calls included, is unchanged.\<close>

theorem get_namespace_mismatch:
  assumes "Urn_validate ident"
      and "namespaceMethod (Urn_fromValidString ident) \<noteq> NAMESPACE"
  shows "NAMESPACE = ''entity-storage''
       \<and> get ident s = (Inl (GeneralError CLASS_NAME ''namespaceMismatch'' None), s)
       \<and> fst (get ident s) \<noteq> Inl (NotFoundError CLASS_NAME ''immutableStorageNotFound'')
       \<and> calls (snd (get ident s)) = calls s"
  by (simp add: get_mismatch[OF assms] NAMESPACE_def)

text \<open>An identifier of another method, on a fresh backing store.\<close>

theorem get_namespace_mismatch_witness:
  "get ''immutable:other-method:ab'' empty_storage =
     (Inl (GeneralError CLASS_NAME ''namespaceMismatch'' None), empty_storage)
   \<and> calls (snd (get ''immutable:other-method:ab'' empty_storage)) = []"
proof -
  have v: "Urn_validate ''immutable:other-method:ab''"
    by (simp add: Urn_validate_def)
  have m: "namespaceMethod (Urn_fromValidString ''immutable:other-method:ab'') \<noteq> NAMESPACE"
    by (simp add: parsed_method[OF sample_parts(2)] NAMESPACE_def)
  show ?thesis
    using get_namespace_mismatch[OF v m, of empty_storage] by (simp add: empty_storage_def)
qed

subsection \<open>C6: formatting and parsing\<close>

text \<open>C6. Formatting and parsing round-trip: for every valid triple of namespace, method and
  raw id (each non-empty and free of colons), the formatted string
  \<open>{namespace}:{method}:{rawId}\<close>, built as \<open>store\<close> builds it, passes the guard, and
  parsing it yields back exactly the method tag and the raw id.\<close>

theorem identifier_roundtrip:
  assumes "ns \<noteq> []" "CHR '':'' \<notin> set ns"
      and "m \<noteq> []" "CHR '':'' \<notin> set m"
      and "rawId \<noteq> []" "CHR '':'' \<notin> set rawId"
  shows "ns @ '':'' @ Urn_toString (Urn_new m rawId) = ns @ '':'' @ m @ '':'' @ rawId
       \<and> Urn_guard CLASS_NAME ''id'' (ns @ '':'' @ m @ '':'' @ rawId) = None
       \<and> namespaceMethod (Urn_fromValidString (ns @ '':'' @ m @ '':'' @ rawId)) = m
       \<and> namespaceSpecific 1 (Urn_fromValidString (ns @ '':'' @ m @ '':'' @ rawId)) = rawId"
proof -
  note p = formatted_parts[OF assms(2,4,6)]
  have "Urn_validate (ns @ '':'' @ m @ '':'' @ rawId)"
    unfolding Urn_validate_def p using assms(1,3,5) by simp
  then have "Urn_guard CLASS_NAME ''id'' (ns @ '':'' @ m @ '':'' @ rawId) = None"
    by (simp add: Urn_guard_def)
  then show ?thesis
    using Urn_toString_new[OF assms(6), of m] parsed_method[OF p] parsed_specific[OF p]
    by simp
qed

text \<open>A short identifier of this backend.\<close>

theorem identifier_roundtrip_witness:
  "Urn_guard CLASS_NAME ''id'' ''immutable:entity-storage:00ff'' = None
   \<and> namespaceMethod (Urn_fromValidString ''immutable:entity-storage:00ff'') = ''entity-storage''
   \<and> namespaceSpecific 1 (Urn_fromValidString ''immutable:entity-storage:00ff'') = ''00ff''"
  using identifier_roundtrip[of "''immutable''" "''entity-storage''" "''00ff''"]
  by simp

subsection \<open>C7: the form of the returned identifier\<close>

text \<open>C7. For every successful \<open>store\<close>, the returned identifier is
  \<open>immutable:entity-storage:\<close> followed by the specific id; the specific id is the hex
  encoding of 32 random bytes, exactly 64 hexadecimal characters, and it is the id under
  which the record was persisted.\<close>

theorem store_identifier_form:
  assumes "store rnd controller data s = (Inr ident, s')"
  shows "ident = ''immutable:entity-storage:'' @ bytesToHex (RandomHelper_generate rnd 32)
       \<and> length (RandomHelper_generate rnd 32) = 32
       \<and> length (bytesToHex (RandomHelper_generate rnd 32)) = 64
       \<and> set (bytesToHex (RandomHelper_generate rnd 32)) \<subseteq> set ''0123456789abcdef''
       \<and> entities s' (bytesToHex (RandomHelper_generate rnd 32)) =
           Some \<lparr>item_id = bytesToHex (RandomHelper_generate rnd 32),
                 item_controller = controller, item_data = bytesToBase64 data\<rparr>"
proof -
  note ok = store_ok[OF store_succeeds_only_if[OF assms], of rnd]
  have i: "ident = ''immutable:entity-storage:'' @ bytesToHex (RandomHelper_generate rnd 32)"
    using assms ok by (simp add: NAMESPACE_def)
  have e: "entities s' (bytesToHex (RandomHelper_generate rnd 32)) =
           Some \<lparr>item_id = bytesToHex (RandomHelper_generate rnd 32),
                 item_controller = controller, item_data = bytesToBase64 data\<rparr>"
    using assms ok by auto
  have h: "set (bytesToHex (RandomHelper_generate rnd 32)) \<subseteq> set ''0123456789abcdef''"
    using bytesToHex_set[of "RandomHelper_generate rnd 32"] by (simp only: hexChars_def)
  show ?thesis
    using i e h generate_length[of rnd 32] generated_id_length[of rnd] by blast
qed

text \<open>The identifier and the record of \<open>alice\<close>.\<close>

theorem store_identifier_form_witness:
  "zero_urn = ''immutable:entity-storage:'' @ bytesToHex (RandomHelper_generate zero_entropy 32)
   \<and> length (bytesToHex (RandomHelper_generate zero_entropy 32)) = 64
   \<and> entities alice_storage (bytesToHex (RandomHelper_generate zero_entropy 32)) =
        Some \<lparr>item_id = bytesToHex (RandomHelper_generate zero_entropy 32),
              item_controller = ''alice'', item_data = bytesToBase64 [1, 2, 3]\<rparr>"
  using store_identifier_form[OF alice_store] by simp

subsection \<open>C8: after \<open>remove\<close>\<close>

text \<open>C8, as the code has it. For every record created by \<open>store\<close> for an owner, the
  owner's \<open>remove\<close> succeeds and the record is absent afterwards; a subsequent \<open>get\<close>
  fails with the \<open>gettingFailed\<close> wrapper and a repeated \<open>remove\<close> with the
  \<open>removingFailed\<close> wrapper, each carrying the \<open>NotFoundError\<close> as its inner error.
  Remove is the only transition out of the stored state: a key that holds a record still
  holds one after any \<open>get\<close> and any \<open>store\<close>, and it is empty after a \<open>remove\<close>
  only if that \<open>remove\<close> succeeded and was called by the record's controller.\<close>

theorem remove_then_absent:
  assumes "store rnd owner data s = (Inr ident, s1)"
  shows "(\<exists>s2. remove_item owner ident s1 = (Inr (), s2)
              \<and> entities s2 (bytesToHex (RandomHelper_generate rnd 32)) = None
              \<and> fst (get ident s2) =
                   Inl (GeneralError CLASS_NAME ''gettingFailed''
                          (Some (NotFoundError CLASS_NAME ''immutableStorageNotFound'')))
              \<and> fst (remove_item owner ident s2) =
                   Inl (GeneralError CLASS_NAME ''removingFailed''
                          (Some (NotFoundError CLASS_NAME ''immutableStorageNotFound''))))
       \<and> (entities t k = Some item \<longrightarrow>
             entities (snd (get ident' t)) k = Some item
           \<and> entities (snd (store rnd' controller' data' t)) k \<noteq> None
           \<and> (entities (snd (remove_item controller' ident' t)) k = None \<longrightarrow>
                fst (remove_item controller' ident' t) = Inr ()
                \<and> item_controller item = controller'))"
proof -
  define h where "h = bytesToHex (RandomHelper_generate rnd 32)"
  define s2 where
    "s2 = s1\<lparr>calls := calls s1 @ [EsGet h, EsRemove h], entities := (entities s1)(h := None)\<rparr>"
  note r = store_result[OF assms(1), folded h_def]
  have own: "owner \<noteq> []" by (rule store_succeeds_only_if(1)[OF assms(1)])
  have h: "h \<noteq> []" "CHR '':'' \<notin> set h"
    unfolding h_def by (rule generated_id_nonempty, rule bytesToHex_no_colon)
  have f2: "fault s2 = None" using r(2) by (simp add: s2_def)
  have e2: "entities s2 h = None" by (simp add: s2_def)
  have rm: "remove_item owner ident s1 = (Inr (), s2)"
    unfolding r(1) s2_def by (rule remove_record_owner[OF r(2) h r(3) own]) simp
  have g: "fst (get ident s2) =
             Inl (GeneralError CLASS_NAME ''gettingFailed''
                    (Some (NotFoundError CLASS_NAME ''immutableStorageNotFound'')))"
    unfolding r(1) by (simp only: get_no_record[OF f2 h e2] fst_conv)
  have rr: "fst (remove_item owner ident s2) =
             Inl (GeneralError CLASS_NAME ''removingFailed''
                    (Some (NotFoundError CLASS_NAME ''immutableStorageNotFound'')))"
    unfolding r(1) by (simp only: remove_no_record[OF f2 h e2 own] fst_conv)
  have first: "\<exists>s2. remove_item owner ident s1 = (Inr (), s2)
              \<and> entities s2 (bytesToHex (RandomHelper_generate rnd 32)) = None
              \<and> fst (get ident s2) =
                   Inl (GeneralError CLASS_NAME ''gettingFailed''
                          (Some (NotFoundError CLASS_NAME ''immutableStorageNotFound'')))
              \<and> fst (remove_item owner ident s2) =
                   Inl (GeneralError CLASS_NAME ''removingFailed''
                          (Some (NotFoundError CLASS_NAME ''immutableStorageNotFound'')))"
    using rm e2 g rr unfolding h_def by blast
  have second: "entities t k = Some item \<longrightarrow>
           entities (snd (get ident' t)) k = Some item
         \<and> entities (snd (store rnd' controller' data' t)) k \<noteq> None
         \<and> (entities (snd (remove_item controller' ident' t)) k = None \<longrightarrow>
              fst (remove_item controller' ident' t) = Inr () \<and> item_controller item = controller')"
    using store_keeps[of t k item rnd' controller' data']
      remove_deletes_only_if[of t k item controller' ident']
    by (simp add: get_entities)
  from first second show ?thesis by (rule conjI)
qed

text \<open>The record of \<open>alice\<close>: removed by her, then looked up and removed again.\<close>

theorem remove_then_absent_witness:
  "fst (remove_item ''alice'' zero_urn alice_storage) = Inr ()
   \<and> fst (get zero_urn (snd (remove_item ''alice'' zero_urn alice_storage))) =
        Inl (GeneralError CLASS_NAME ''gettingFailed''
               (Some (NotFoundError CLASS_NAME ''immutableStorageNotFound'')))
   \<and> fst (remove_item ''alice'' zero_urn (snd (remove_item ''alice'' zero_urn alice_storage))) =
        Inl (GeneralError CLASS_NAME ''removingFailed''
               (Some (NotFoundError CLASS_NAME ''immutableStorageNotFound'')))
   \<and> entities (snd (get zero_urn alice_storage))
          (bytesToHex (RandomHelper_generate zero_entropy 32)) \<noteq> None
   \<and> entities (snd (store zero_entropy ''alice'' [4] alice_storage))
          (bytesToHex (RandomHelper_generate zero_entropy 32)) \<noteq> None
   \<and> entities (snd (remove_item ''alice'' zero_urn alice_storage))
          (bytesToHex (RandomHelper_generate zero_entropy 32)) = None"
  using remove_then_absent[OF alice_store,
      of alice_storage "bytesToHex (RandomHelper_generate zero_entropy 32)"
         "\<lparr>item_id = bytesToHex (RandomHelper_generate zero_entropy 32),
           item_controller = ''alice'', item_data = bytesToBase64 [1, 2, 3]\<rparr>"
         zero_urn zero_entropy "''alice''" "[4]"]
    alice_record(2)
  by auto

text \<open>C8 as stated asks for \<open>NotFoundError\<close> from the \<open>get\<close> that follows the
  \<open>remove\<close>. The error that reaches the caller is the \<open>gettingFailed\<close> wrapper.\<close>

theorem remove_then_get_counterexample:
  "store zero_entropy ''alice'' [1, 2, 3] empty_storage = (Inr zero_urn, alice_storage)
   \<and> fst (remove_item ''alice'' zero_urn alice_storage) = Inr ()
   \<and> fst (get zero_urn (snd (remove_item ''alice'' zero_urn alice_storage))) =
        Inl (GeneralError CLASS_NAME ''gettingFailed''
               (Some (NotFoundError CLASS_NAME ''immutableStorageNotFound'')))
   \<and> fst (get zero_urn (snd (remove_item ''alice'' zero_urn alice_storage))) \<noteq>
        Inl (NotFoundError CLASS_NAME ''immutableStorageNotFound'')"
proof -
  let ?k = "bytesToHex (RandomHelper_generate zero_entropy 32)"
  let ?s2 = "alice_storage\<lparr>calls := calls alice_storage @ [EsGet ?k, EsRemove ?k],
                            entities := (entities alice_storage)(?k := None)\<rparr>"
  have rm: "remove_item ''alice'' zero_urn alice_storage = (Inr (), ?s2)"
    unfolding zero_urn_eq
    by (rule remove_record_owner[OF alice_record(1) generated_id_nonempty bytesToHex_no_colon
          alice_record(2)]) simp_all
  have "get zero_urn ?s2 =
          (Inl (GeneralError CLASS_NAME ''gettingFailed''
                  (Some (NotFoundError CLASS_NAME ''immutableStorageNotFound''))),
           ?s2\<lparr>calls := calls ?s2 @ [EsGet ?k]\<rparr>)"
    unfolding zero_urn_eq
    by (rule get_no_record[OF _ generated_id_nonempty bytesToHex_no_colon])
       (simp_all add: alice_record(1))
  then show ?thesis using rm alice_store by simp
qed

subsection \<open>C9: reading needs no ownership\<close>

text \<open>C9. \<open>get\<close> takes no caller and checks no ownership: for every stored record,
  whatever controller it names, \<open>get\<close> on its identifier succeeds and returns the
  payload. Only \<open>remove\<close> is gated: for a non-empty caller it succeeds exactly when the
  caller is the record's controller.\<close>

theorem get_ignores_ownership:
  assumes "fault s = None" "k \<noteq> []" "CHR '':'' \<notin> set k"
      and "entities s k = Some \<lparr>item_id = k, item_controller = owner,
                                 item_data = bytesToBase64 data\<rparr>"
  shows "fst (get (''immutable:entity-storage:'' @ k) s) = Inr data
       \<and> (caller \<noteq> [] \<longrightarrow>
            (fst (remove_item caller (''immutable:entity-storage:'' @ k) s) = Inr ())
              = (caller = owner))"
proof -
  have u: "''immutable:entity-storage:'' @ k = ''immutable:'' @ NAMESPACE @ '':'' @ k"
    by (simp add: NAMESPACE_def)
  have g: "fst (get (''immutable:entity-storage:'' @ k) s) = Inr data"
    unfolding u
    by (simp only: get_record[OF assms(1,2,3,4)] ImmutableItem.simps base64_roundtrip fst_conv)
  have r: "(fst (remove_item caller (''immutable:entity-storage:'' @ k) s) = Inr ())
              = (caller = owner)" if c: "caller \<noteq> []"
  proof (cases "caller = owner")
    case True
    have "item_controller \<lparr>item_id = k, item_controller = owner,
                            item_data = bytesToBase64 data\<rparr> = caller"
      using True by simp
    from remove_record_owner[OF assms(1,2,3,4) c this] True show ?thesis
      unfolding u by (simp only: fst_conv simp_thms)
  next
    case False
    have "item_controller \<lparr>item_id = k, item_controller = owner,
                            item_data = bytesToBase64 data\<rparr> \<noteq> caller"
      using False by simp
    from remove_record_other[OF assms(1,2,3,4) c this] False show ?thesis
      unfolding u by (simp only: fst_conv sum.distinct simp_thms)
  qed
  from g r show ?thesis by blast
qed

text \<open>The record of \<open>alice\<close> is read; \<open>bob\<close> cannot remove it, \<open>alice\<close> can.\<close>

theorem get_ignores_ownership_witness:
  "fst (get zero_urn alice_storage) = Inr [1, 2, 3]
   \<and> fst (remove_item ''bob'' zero_urn alice_storage) \<noteq> Inr ()
   \<and> fst (remove_item ''alice'' zero_urn alice_storage) = Inr ()"
proof -
  note t = get_ignores_ownership[OF alice_record(1) generated_id_nonempty bytesToHex_no_colon
      alice_record(2)]
  show ?thesis
    using t[of "''bob''"] t[of "''alice''"] by (simp add: zero_urn_def zero_id)
qed

subsection \<open>C10: the identifier depends on the random source only\<close>

text \<open>C10. Two successful \<open>store\<close> calls made with the same random output return the same
  identifier, whatever their controllers, their data and their backing stores are.\<close>

theorem store_identifier_only_random:
  assumes "store rnd controller1 data1 s1 = (Inr ident1, t1)"
      and "store rnd controller2 data2 s2 = (Inr ident2, t2)"
  shows "ident1 = ident2"
proof -
  have "ident1 = ''immutable:'' @ NAMESPACE @ '':'' @ bytesToHex (RandomHelper_generate rnd 32)"
    using assms(1) store_ok[OF store_succeeds_only_if[OF assms(1)], of rnd] by simp
  moreover have "ident2 = ''immutable:'' @ NAMESPACE @ '':'' @ bytesToHex (RandomHelper_generate rnd 32)"
    using assms(2) store_ok[OF store_succeeds_only_if[OF assms(2)], of rnd] by simp
  ultimately show ?thesis by simp
qed

text \<open>\<open>alice\<close> and \<open>bob\<close> store different data under the same entropy.\<close>

theorem store_identifier_only_random_witness:
  "fst (store zero_entropy ''alice'' [1, 2, 3] empty_storage) =
   fst (store zero_entropy ''bob'' [9] alice_storage)"
proof -
  obtain i t where b: "store zero_entropy ''bob'' [9] alice_storage = (Inr i, t)"
    using store_ok[where controller = "''bob''" and data = "[9]" and s = alice_storage
                         and rnd = zero_entropy] alice_record(1)
    by simp
  have "zero_urn = i"
    by (rule store_identifier_only_random[OF alice_store b])
  then show ?thesis using alice_store b by simp
qed

end
